theory Spec2Isabelle
  imports Main "HOL-Library.Multiset" "HOL-Library.Char_ord" "HOL-Library.List_Lexorder"
begin

section \<open>The certificate issuer resource of the tsuru provider\<close>

text \<open>
  A shallow embedding of \<^verbatim>\<open>internal/provider/resource_tsuru_certificate_issuer.go\<close>:
  the three handlers \<^verbatim>\<open>resourceTsuruCertificateIssuerSet\<close>,
  \<^verbatim>\<open>resourceTsuruCertificateIssuerUnset\<close> and
  \<^verbatim>\<open>resourceTsuruCertificateIssuerRead\<close>.

  Go strings are byte sequences, here \<^typ>\<open>string\<close>. The order on strings is the
  byte-wise lexicographic one (\<open>Char_ord\<close>, \<open>List_Lexorder\<close>), which is the order
  \<^verbatim>\<open>sort.Strings\<close> uses.
\<close>

subsection \<open>Errors and diagnostics\<close>

text \<open>
  A Go \<^verbatim>\<open>error\<close> is represented by its message (\<^verbatim>\<open>err.Error()\<close>), which is all the
  handlers use of it. \<^verbatim>\<open>diag.Diagnostics\<close> is a list of diagnostics; the handlers only build
  diagnostics of severity Error with a summary, and \<^verbatim>\<open>nil\<close> is the empty list.
\<close>

type_synonym error = string

datatype Diagnostic = DiagError string

type_synonym Diagnostics = "Diagnostic list"

text \<open>\<^verbatim>\<open>diag.FromErr(err)\<close> for a non-nil error.\<close>

definition FromErr :: "error \<Rightarrow> Diagnostics" where
  "FromErr err = [DiagError err]"

text \<open>\<^verbatim>\<open>diag.Errorf(format + "%v", err)\<close>: the format's text followed by the error's message.\<close>

definition Errorf :: "string \<Rightarrow> error \<Rightarrow> Diagnostics" where
  "Errorf prefix err = [DiagError (prefix @ err)]"

text \<open>
  What a handler's run ends in: it returns its diagnostics, or the Go runtime panics
  (an index out of range on \<^verbatim>\<open>parts[i]\<close>).
\<close>

datatype outcome = Panic | Return Diagnostics

subsection \<open>The resource data\<close>

text \<open>
  \<^verbatim>\<open>*schema.ResourceData\<close> restricted to this resource's schema: the identifier
  (\<^verbatim>\<open>d.Id()\<close>, \<^verbatim>\<open>d.SetId\<close>) and one field per schema key (\<^verbatim>\<open>d.Get\<close>, \<^verbatim>\<open>d.Set\<close>),
  typed as the schema declares them.
\<close>

record ResourceData =
  ID :: string
  app_attr :: string
  cname_attr :: string
  issuer_attr :: string
  router_attr :: "string list"
  certificate_attr :: "string list"
  ready_attr :: bool

subsection \<open>The remote API\<close>

text \<open>
  The data the generated client returns, as far as the handlers read it. A router's
  \<^verbatim>\<open>Cnames\<close> is a Go map that is only looked up, so it is a partial function.
  \<^verbatim>\<open>Routers\<close> is a Go map that is iterated with \<^verbatim>\<open>range\<close>, in an order Go leaves open:
  it is the list of its entries in the order the loop visits them (the keys of a Go map
  are distinct).
\<close>

record CnameInRouter =
  Certificate :: string
  Issuer :: string

record Router =
  Cnames :: "string \<rightharpoonup> CnameInRouter"

record AppCertificates =
  Routers :: "(string \<times> Router) list"

text \<open>\<^verbatim>\<open>tsuru.CertIssuerSetData{Cname: cname, Issuer: issuer}\<close>.\<close>

datatype CertIssuerSetData = CertIssuerSetData string string

text \<open>
  The three operations of \<^verbatim>\<open>provider.TsuruClient.AppApi\<close> the handlers call. The remote
  side is outside the repository: it is a parameter, a deterministic machine over a state
  \<open>'r\<close> that answers each call and moves to a new state. The HTTP response the client
  returns beside the error is ignored by the handlers and left out.
\<close>

record 'r AppApi =
  AppSetCertIssuer :: "string \<Rightarrow> CertIssuerSetData \<Rightarrow> 'r \<Rightarrow> error option \<times> 'r"
  AppUnsetCertIssuer :: "string \<Rightarrow> string \<Rightarrow> 'r \<Rightarrow> error option \<times> 'r"
  AppGetCertificates :: "string \<Rightarrow> 'r \<Rightarrow> (error + AppCertificates) \<times> 'r"

text \<open>The remote calls a handler makes are logged, in order, next to the remote state.\<close>

datatype call =
  SetCertIssuerCall string CertIssuerSetData
| UnsetCertIssuerCall string string
| GetCertificatesCall string

record 'r World =
  remote :: 'r
  calls :: "call list"

definition callSetCertIssuer ::
  "'r AppApi \<Rightarrow> string \<Rightarrow> CertIssuerSetData \<Rightarrow> 'r World \<Rightarrow> error option \<times> 'r World" where
  "callSetCertIssuer api app data w =
     (case AppSetCertIssuer api app data (remote w) of
        (err, r) \<Rightarrow> (err, \<lparr>remote = r, calls = calls w @ [SetCertIssuerCall app data]\<rparr>))"

definition callUnsetCertIssuer ::
  "'r AppApi \<Rightarrow> string \<Rightarrow> string \<Rightarrow> 'r World \<Rightarrow> error option \<times> 'r World" where
  "callUnsetCertIssuer api app cname w =
     (case AppUnsetCertIssuer api app cname (remote w) of
        (err, r) \<Rightarrow> (err, \<lparr>remote = r, calls = calls w @ [UnsetCertIssuerCall app cname]\<rparr>))"

definition callGetCertificates ::
  "'r AppApi \<Rightarrow> string \<Rightarrow> 'r World \<Rightarrow> (error + AppCertificates) \<times> 'r World" where
  "callGetCertificates api app w =
     (case AppGetCertificates api app (remote w) of
        (res, r) \<Rightarrow> (res, \<lparr>remote = r, calls = calls w @ [GetCertificatesCall app]\<rparr>))"

subsection \<open>The identifier\<close>

text \<open>The delimiter of the persisted identifier \<^verbatim>\<open>"app::cname::issuer"\<close>.\<close>

definition idSeparator :: string where
  "idSeparator = ''::''"

text \<open>
  Modelled from the spec: the splitting of an identifier at its delimiter, which
  \<^verbatim>\<open>IDtoParts\<close> (a helper shared across resources, not among the sources) relies on.
  The spec gives the identifier as the three fields joined with the delimiter \<^verbatim>\<open>::\<close>;
  the parts are the stretches between the occurrences of the delimiter, found from left
  to right.
\<close>

fun splitId :: "string \<Rightarrow> string list" where
  "splitId [] = [[]]"
| "splitId (x # xs) =
     (if take 2 (x # xs) = idSeparator then [] # splitId (drop 1 xs)
      else (case splitId xs of [] \<Rightarrow> [[x]] | p # ps \<Rightarrow> (x # p) # ps))"

text \<open>
  Modelled from the spec: \<^verbatim>\<open>IDtoParts\<close>, the identifier parser the handlers call as
  \<^verbatim>\<open>IDtoParts(d.Id(), 3)\<close>; its code is not among the sources. The spec says that it
  parses the identifier back into its three parts and that a malformed identifier is an
  error: the result is the list of parts when there are exactly as many as asked for
  (``its three parts''), an error otherwise. The error's message is not given by the spec.
\<close>

definition idParseError :: error where
  "idParseError = ''resource ID could not be parsed''"

definition IDtoParts :: "string \<Rightarrow> nat \<Rightarrow> error + string list" where
  "IDtoParts str n =
     (let parts = splitId str
      in if length parts = n then Inr parts else Inl idParseError)"

text \<open>\<^verbatim>\<open>parts[i]\<close>: Go panics when the index is out of range.\<close>

definition index :: "'a list \<Rightarrow> nat \<Rightarrow> 'a option" where
  "index xs i = (if i < length xs then Some (xs ! i) else None)"

subsection \<open>Read\<close>

text \<open>
  The loop of the read handler over \<^verbatim>\<open>certificates.Routers\<close>, with the two slices
  \<^verbatim>\<open>usedRouters\<close> and \<^verbatim>\<open>usedCertificates\<close> it appends to as accumulators.
\<close>

fun rangeRouters ::
  "string \<Rightarrow> string \<Rightarrow> (string \<times> Router) list \<Rightarrow> string list \<Rightarrow> string list
     \<Rightarrow> string list \<times> string list" where
  "rangeRouters cname issuer [] usedRouters usedCertificates = (usedRouters, usedCertificates)"
| "rangeRouters cname issuer ((routerName, router) # rest) usedRouters usedCertificates =
     (case Cnames router cname of
        None \<Rightarrow> rangeRouters cname issuer rest usedRouters usedCertificates
      | Some cnameInRouter \<Rightarrow>
          if Issuer cnameInRouter \<noteq> issuer
          then rangeRouters cname issuer rest usedRouters usedCertificates
          else rangeRouters cname issuer rest (usedRouters @ [routerName])
                 (if Certificate cnameInRouter \<noteq> ''''
                  then usedCertificates @ [Certificate cnameInRouter]
                  else usedCertificates))"

text \<open>
  \<^verbatim>\<open>sort.Strings\<close> sorts in increasing byte-wise lexicographic order. Its result is the
  one sorted arrangement of its argument, which \<^const>\<open>sort\<close> computes as well.
\<close>

definition resourceTsuruCertificateIssuerRead ::
  "'r AppApi \<Rightarrow> ResourceData \<Rightarrow> 'r World \<Rightarrow> outcome \<times> ResourceData \<times> 'r World" where
  "resourceTsuruCertificateIssuerRead provider d w =
     (case IDtoParts (ID d) 3 of
        Inl err \<Rightarrow> (Return (FromErr err), d, w)
      | Inr parts \<Rightarrow>
          (case (index parts 0, index parts 1, index parts 2) of
             (Some app, Some cname, Some issuer) \<Rightarrow>
               (case callGetCertificates provider app w of
                  (Inl err, w') \<Rightarrow> (Return (FromErr err), d, w')
                | (Inr certificates, w') \<Rightarrow>
                    (case rangeRouters cname issuer (Routers certificates) [] [] of
                       (usedRouters, usedCertificates) \<Rightarrow>
                         (Return [],
                          d\<lparr>app_attr := app, cname_attr := cname, issuer_attr := issuer,
                            router_attr := sort usedRouters,
                            certificate_attr := sort usedCertificates,
                            ready_attr := (length (sort usedCertificates) > 0)\<rparr>,
                          w')))
           | _ \<Rightarrow> (Panic, d, w)))"

subsection \<open>Set and unset\<close>

definition resourceTsuruCertificateIssuerSet ::
  "'r AppApi \<Rightarrow> ResourceData \<Rightarrow> 'r World \<Rightarrow> outcome \<times> ResourceData \<times> 'r World" where
  "resourceTsuruCertificateIssuerSet provider d w =
     (let app = app_attr d; cname = cname_attr d; issuer = issuer_attr d
      in case callSetCertIssuer provider app (CertIssuerSetData cname issuer) w of
           (Some err, w') \<Rightarrow> (Return (Errorf ''unable to set certificate issuer: '' err), d, w')
         | (None, w') \<Rightarrow>
             resourceTsuruCertificateIssuerRead provider
               (d\<lparr>ID := app @ ''::'' @ cname @ ''::'' @ issuer\<rparr>) w')"

definition resourceTsuruCertificateIssuerUnset ::
  "'r AppApi \<Rightarrow> ResourceData \<Rightarrow> 'r World \<Rightarrow> outcome \<times> ResourceData \<times> 'r World" where
  "resourceTsuruCertificateIssuerUnset provider d w =
     (case IDtoParts (ID d) 3 of
        Inl err \<Rightarrow> (Return (FromErr err), d, w)
      | Inr parts \<Rightarrow>
          (case (index parts 0, index parts 1) of
             (Some app, Some cname) \<Rightarrow>
               (case callUnsetCertIssuer provider app cname w of
                  (Some err, w') \<Rightarrow>
                    (Return (Errorf ''unable to unset certificate issuer: '' err), d, w')
                | (None, w') \<Rightarrow> resourceTsuruCertificateIssuerRead provider d w')
           | _ \<Rightarrow> (Panic, d, w)))"

subsection \<open>The properties' vocabulary\<close>

text \<open>
  The spec's description of the read: the routers ``whose CNAME table contains the target
  CNAME with a matching issuer'', their names, and their ``non-empty certificate values''.
  These definitions follow the spec's words, not the loop; \<open>rangeRouters_eq\<close> below
  relates the loop to them.
\<close>

definition usesIssuer :: "string \<Rightarrow> string \<Rightarrow> Router \<Rightarrow> bool" where
  "usesIssuer cname issuer router =
     (case Cnames router cname of None \<Rightarrow> False | Some e \<Rightarrow> Issuer e = issuer)"

definition certificateOf :: "string \<Rightarrow> Router \<Rightarrow> string" where
  "certificateOf cname router =
     (case Cnames router cname of None \<Rightarrow> [] | Some e \<Rightarrow> Certificate e)"

definition matchingRouters ::
  "string \<Rightarrow> string \<Rightarrow> (string \<times> Router) list \<Rightarrow> (string \<times> Router) list" where
  "matchingRouters cname issuer rs = filter (\<lambda>entry. usesIssuer cname issuer (snd entry)) rs"

definition routerNames :: "string \<Rightarrow> string \<Rightarrow> (string \<times> Router) list \<Rightarrow> string list" where
  "routerNames cname issuer rs = map fst (matchingRouters cname issuer rs)"

definition issuedCertificates ::
  "string \<Rightarrow> string \<Rightarrow> (string \<times> Router) list \<Rightarrow> string list" where
  "issuedCertificates cname issuer rs =
     filter (\<lambda>s. s \<noteq> [])
       (map (\<lambda>entry. certificateOf cname (snd entry)) (matchingRouters cname issuer rs))"

text \<open>
  The spec speaks of ``valid'' triples without saying which they are, and the schema
  validates nothing. The identifier is read back by cutting at the delimiter, so the
  triples meant are those whose fields do not interfere with it: \<open>app\<close> and \<open>cname\<close>
  contain no delimiter and do not end in a colon (which would join the delimiter that
  follows), and \<open>issuer\<close> contains no delimiter. Names without any colon, as application
  names, host names and issuer names are, satisfy this.
\<close>

fun containsSep :: "string \<Rightarrow> bool" where
  "containsSep [] = False"
| "containsSep (x # xs) = (take 2 (x # xs) = idSeparator \<or> containsSep xs)"

definition validField :: "string \<Rightarrow> bool" where
  "validField s = (\<not> containsSep s \<and> (s = [] \<or> last s \<noteq> CHR '':''))"

definition validTriple :: "string \<Rightarrow> string \<Rightarrow> string \<Rightarrow> bool" where
  "validTriple app cname issuer =
     (validField app \<and> validField cname \<and> \<not> containsSep issuer)"

subsection \<open>Example inputs\<close>

text \<open>
  A remote whose three operations give fixed answers, a listing with four routers (two
  serve the CNAME \<open>c\<close> under the issuer \<open>le\<close>, one of them with a certificate; one serves
  it under another issuer; one does not serve it), and a resource.
\<close>

definition stubApi ::
  "error option \<Rightarrow> error option \<Rightarrow> (error + AppCertificates) \<Rightarrow> unit AppApi" where
  "stubApi setResult unsetResult getResult =
     \<lparr>AppSetCertIssuer = (\<lambda>app data r. (setResult, r)),
      AppUnsetCertIssuer = (\<lambda>app cname r. (unsetResult, r)),
      AppGetCertificates = (\<lambda>app r. (getResult, r))\<rparr>"

definition exampleRouters :: "(string \<times> Router) list" where
  "exampleRouters =
     [(''r2'', \<lparr>Cnames = [''c'' \<mapsto> \<lparr>Certificate = ''pem'', Issuer = ''le''\<rparr>]\<rparr>),
      (''r1'', \<lparr>Cnames = [''c'' \<mapsto> \<lparr>Certificate = [], Issuer = ''le''\<rparr>]\<rparr>),
      (''r3'', \<lparr>Cnames = [''c'' \<mapsto> \<lparr>Certificate = ''other-pem'', Issuer = ''other''\<rparr>]\<rparr>),
      (''r0'', \<lparr>Cnames = Map.empty\<rparr>)]"

definition exampleCertificates :: AppCertificates where
  "exampleCertificates = \<lparr>Routers = exampleRouters\<rparr>"

definition exampleData :: ResourceData where
  "exampleData =
     \<lparr>ID = ''a::c::le'', app_attr = ''a'', cname_attr = ''c'', issuer_attr = ''le'',
      router_attr = [''stale''], certificate_attr = [], ready_attr = False\<rparr>"

definition emptyWorld :: "unit World" where
  "emptyWorld = \<lparr>remote = (), calls = []\<rparr>"

text \<open>The remote on which every call succeeds and the listing is the example's.\<close>

definition exampleApi :: "unit AppApi" where
  "exampleApi = stubApi None None (Inr exampleCertificates)"

text \<open>What the read of the example resource against that remote is to write.\<close>

definition exampleResult :: ResourceData where
  "exampleResult =
     exampleData\<lparr>router_attr := [''r1'', ''r2''], certificate_attr := [''pem''],
       ready_attr := True\<rparr>"

text \<open>
  A resource that holds the example's identifier and nothing else, as after an import.
\<close>

definition importedData :: ResourceData where
  "importedData =
     \<lparr>ID = ''a::c::le'', app_attr = [], cname_attr = [], issuer_attr = [],
      router_attr = [], certificate_attr = [], ready_attr = False\<rparr>"

section \<open>Properties\<close>

subsection \<open>The identifier parser\<close>

lemma validField_Cons:
  "validField (x # p) \<Longrightarrow>
     validField p \<and> take 2 (x # p @ idSeparator @ rest) \<noteq> idSeparator"
  by (cases p) (auto simp: validField_def idSeparator_def)

lemma splitId_field:
  "validField p \<Longrightarrow> splitId (p @ idSeparator @ rest) = p # splitId rest"
proof (induction p)
  case Nil
  show ?case by (simp add: idSeparator_def)
next
  case (Cons x p)
  from validField_Cons [OF Cons.prems, of rest]
  have v: "validField p" and t: "take 2 (x # p @ idSeparator @ rest) \<noteq> idSeparator"
    by simp_all
  from Cons.IH [OF v] have ih: "splitId (p @ idSeparator @ rest) = p # splitId rest" .
  have "splitId (x # p @ idSeparator @ rest) =
          (case splitId (p @ idSeparator @ rest) of [] \<Rightarrow> [[x]] | q # qs \<Rightarrow> (x # q) # qs)"
    using t by (simp del: take_Suc_Cons)
  then show ?case using ih by simp
qed

lemma splitId_not_Nil: "splitId s \<noteq> []"
  by (induction s rule: splitId.induct) (auto split: list.splits)

lemma splitId_single: "\<not> containsSep s \<Longrightarrow> splitId s = [s]"
  by (induction s) (auto split: list.splits)

lemma validField_no_colon: "CHR '':'' \<notin> set s \<Longrightarrow> validField s"
  by (induction s) (auto simp: validField_def idSeparator_def split: if_splits)

lemma containsSep_no_colon: "CHR '':'' \<notin> set s \<Longrightarrow> \<not> containsSep s"
  using validField_no_colon [of s] by (simp add: validField_def)

lemma validTriple_no_colon:
  "CHR '':'' \<notin> set app \<union> set cname \<union> set issuer \<Longrightarrow> validTriple app cname issuer"
  by (simp add: validTriple_def validField_no_colon containsSep_no_colon)

lemma IDtoParts_length: "IDtoParts s n = Inr parts \<Longrightarrow> length parts = n"
  by (auto simp: IDtoParts_def Let_def split: if_splits)

lemma IDtoParts_error_iff:
  "IDtoParts s n = Inl err \<longleftrightarrow> length (splitId s) \<noteq> n \<and> err = idParseError"
  by (auto simp: IDtoParts_def Let_def)

lemma IDtoParts_compose:
  "validTriple app cname issuer \<Longrightarrow>
     IDtoParts (app @ ''::'' @ cname @ ''::'' @ issuer) 3 = Inr [app, cname, issuer]"
proof -
  assume v: "validTriple app cname issuer"
  have "splitId (app @ idSeparator @ cname @ idSeparator @ issuer) = [app, cname, issuer]"
    using v by (simp add: validTriple_def splitId_field splitId_single)
  then show ?thesis by (simp add: IDtoParts_def idSeparator_def)
qed

subsection \<open>The loop of the read\<close>

lemma rangeRouters_eq:
  "rangeRouters c i rs ur uc = (ur @ routerNames c i rs, uc @ issuedCertificates c i rs)"
  by (induction rs arbitrary: ur uc)
    (auto simp: routerNames_def issuedCertificates_def matchingRouters_def usesIssuer_def
      certificateOf_def split: option.splits)

lemma usesIssuer_iff:
  "usesIssuer c i r \<longleftrightarrow> (\<exists>e. Cnames r c = Some e \<and> Issuer e = i)"
  by (auto simp: usesIssuer_def split: option.splits)

lemma usesIssuer_certificateOf_iff:
  "usesIssuer c i r \<and> certificateOf c r = s \<longleftrightarrow>
     (\<exists>e. Cnames r c = Some e \<and> Issuer e = i \<and> Certificate e = s)"
  by (cases "Cnames r c") (auto simp: usesIssuer_def certificateOf_def)

lemma routerNames_set:
  "n \<in> set (routerNames c i rs) \<longleftrightarrow>
     (\<exists>r e. (n, r) \<in> set rs \<and> Cnames r c = Some e \<and> Issuer e = i)"
  by (force simp: routerNames_def matchingRouters_def usesIssuer_iff)

lemma issuedCertificates_set:
  "s \<in> set (issuedCertificates c i rs) \<longleftrightarrow>
     s \<noteq> [] \<and>
     (\<exists>n r e. (n, r) \<in> set rs \<and> Cnames r c = Some e \<and> Issuer e = i \<and> Certificate e = s)"
proof -
  have "s \<in> set (issuedCertificates c i rs) \<longleftrightarrow>
          s \<noteq> [] \<and> (\<exists>n r. (n, r) \<in> set rs \<and> usesIssuer c i r \<and> certificateOf c r = s)"
    by (force simp: issuedCertificates_def matchingRouters_def)
  also have "\<dots> \<longleftrightarrow> s \<noteq> [] \<and>
      (\<exists>n r e. (n, r) \<in> set rs \<and> Cnames r c = Some e \<and> Issuer e = i \<and> Certificate e = s)"
    unfolding usesIssuer_certificateOf_iff by blast
  finally show ?thesis .
qed

lemma sort_cong_mset: "mset xs = mset ys \<Longrightarrow> sort xs = sort (ys :: 'a::linorder list)"
  by (metis properties_for_sort sorted_sort mset_sort)

lemma matchingRouters_mset:
  "mset rs = mset rs' \<Longrightarrow> mset (matchingRouters c i rs) = mset (matchingRouters c i rs')"
  by (simp add: matchingRouters_def)

lemma routerNames_mset:
  "mset rs = mset rs' \<Longrightarrow> mset (routerNames c i rs) = mset (routerNames c i rs')"
  using matchingRouters_mset [of rs rs' c i] by (simp add: routerNames_def)

lemma issuedCertificates_mset:
  "mset rs = mset rs' \<Longrightarrow>
     mset (issuedCertificates c i rs) = mset (issuedCertificates c i rs')"
  using matchingRouters_mset [of rs rs' c i] by (simp add: issuedCertificates_def)

subsection \<open>The runs of the read handler\<close>

text \<open>
  The handlers read the first three parts of the parsed identifier; the hypotheses below
  name them \<open>a\<close>, \<open>c\<close> and \<open>i\<close>.
\<close>

lemma Read_parse_error:
  "IDtoParts (ID d) 3 = Inl err \<Longrightarrow>
   resourceTsuruCertificateIssuerRead provider d w = (Return [DiagError err], d, w)"
  by (simp add: resourceTsuruCertificateIssuerRead_def FromErr_def)

lemma Read_get_error:
  "IDtoParts (ID d) 3 = Inr (a # c # i # rest) \<Longrightarrow>
   AppGetCertificates provider a (remote w) = (Inl err, r) \<Longrightarrow>
   resourceTsuruCertificateIssuerRead provider d w =
     (Return [DiagError err], d, \<lparr>remote = r, calls = calls w @ [GetCertificatesCall a]\<rparr>)"
  by (simp add: resourceTsuruCertificateIssuerRead_def FromErr_def index_def
      callGetCertificates_def)

lemma Read_ok:
  "IDtoParts (ID d) 3 = Inr (a # c # i # rest) \<Longrightarrow>
   AppGetCertificates provider a (remote w) = (Inr certificates, r) \<Longrightarrow>
   resourceTsuruCertificateIssuerRead provider d w =
     (Return [],
      d\<lparr>app_attr := a, cname_attr := c, issuer_attr := i,
        router_attr := sort (routerNames c i (Routers certificates)),
        certificate_attr := sort (issuedCertificates c i (Routers certificates)),
        ready_attr := (issuedCertificates c i (Routers certificates) \<noteq> [])\<rparr>,
      \<lparr>remote = r, calls = calls w @ [GetCertificatesCall a]\<rparr>)"
  by (simp add: resourceTsuruCertificateIssuerRead_def index_def
      callGetCertificates_def rangeRouters_eq)

text \<open>With the parser as modelled, \<^verbatim>\<open>parts[0]\<close>, \<^verbatim>\<open>parts[1]\<close> and \<^verbatim>\<open>parts[2]\<close> are in range.\<close>

lemma Read_no_panic: "fst (resourceTsuruCertificateIssuerRead provider d w) \<noteq> Panic"
proof (cases "IDtoParts (ID d) 3")
  case (Inl e)
  then show ?thesis by (simp add: Read_parse_error)
next
  case (Inr parts)
  then have "length parts = 3" by (rule IDtoParts_length)
  then obtain a c i where p: "parts = [a, c, i]"
    by (cases parts; cases "tl parts"; cases "tl (tl parts)") auto
  obtain res r where g: "AppGetCertificates provider a (remote w) = (res, r)"
    by (cases "AppGetCertificates provider a (remote w)")
  show ?thesis
    using Inr p g by (cases res) (simp_all add: Read_get_error Read_ok)
qed

lemma Read_ID: "ID (fst (snd (resourceTsuruCertificateIssuerRead provider d w))) = ID d"
  by (simp add: resourceTsuruCertificateIssuerRead_def
      split: sum.splits option.splits prod.splits)

lemma Read_calls:
  "\<exists>later. calls (snd (snd (resourceTsuruCertificateIssuerRead provider d w))) =
     calls w @ later"
  by (auto simp: resourceTsuruCertificateIssuerRead_def callGetCertificates_def
      split: sum.splits option.splits prod.splits)

subsection \<open>The runs of set and unset\<close>

lemma Set_remote_error:
  "AppSetCertIssuer provider (app_attr d) (CertIssuerSetData (cname_attr d) (issuer_attr d))
     (remote w) = (Some err, r) \<Longrightarrow>
   resourceTsuruCertificateIssuerSet provider d w =
     (Return [DiagError (''unable to set certificate issuer: '' @ err)], d,
      \<lparr>remote = r, calls = calls w @
         [SetCertIssuerCall (app_attr d) (CertIssuerSetData (cname_attr d) (issuer_attr d))]\<rparr>)"
  by (simp add: resourceTsuruCertificateIssuerSet_def callSetCertIssuer_def Errorf_def Let_def)

lemma Set_ok:
  "AppSetCertIssuer provider (app_attr d) (CertIssuerSetData (cname_attr d) (issuer_attr d))
     (remote w) = (None, r) \<Longrightarrow>
   resourceTsuruCertificateIssuerSet provider d w =
     resourceTsuruCertificateIssuerRead provider
       (d\<lparr>ID := app_attr d @ ''::'' @ cname_attr d @ ''::'' @ issuer_attr d\<rparr>)
       \<lparr>remote = r, calls = calls w @
         [SetCertIssuerCall (app_attr d) (CertIssuerSetData (cname_attr d) (issuer_attr d))]\<rparr>"
  by (simp add: resourceTsuruCertificateIssuerSet_def callSetCertIssuer_def Let_def)

lemma Unset_parse_error:
  "IDtoParts (ID d) 3 = Inl err \<Longrightarrow>
   resourceTsuruCertificateIssuerUnset provider d w = (Return [DiagError err], d, w)"
  by (simp add: resourceTsuruCertificateIssuerUnset_def FromErr_def)

lemma Unset_remote_error:
  "IDtoParts (ID d) 3 = Inr (a # c # i # rest) \<Longrightarrow>
   AppUnsetCertIssuer provider a c (remote w) = (Some err, r) \<Longrightarrow>
   resourceTsuruCertificateIssuerUnset provider d w =
     (Return [DiagError (''unable to unset certificate issuer: '' @ err)], d,
      \<lparr>remote = r, calls = calls w @ [UnsetCertIssuerCall a c]\<rparr>)"
  by (simp add: resourceTsuruCertificateIssuerUnset_def index_def callUnsetCertIssuer_def
      Errorf_def)

lemma Unset_ok:
  "IDtoParts (ID d) 3 = Inr (a # c # i # rest) \<Longrightarrow>
   AppUnsetCertIssuer provider a c (remote w) = (None, r) \<Longrightarrow>
   resourceTsuruCertificateIssuerUnset provider d w =
     resourceTsuruCertificateIssuerRead provider d
       \<lparr>remote = r, calls = calls w @ [UnsetCertIssuerCall a c]\<rparr>"
  by (simp add: resourceTsuruCertificateIssuerUnset_def index_def callUnsetCertIssuer_def)

lemma Unset_first_call:
  assumes "IDtoParts (ID d) 3 = Inr (a # c # i # rest)"
  shows "\<exists>later. calls (snd (snd (resourceTsuruCertificateIssuerUnset provider d w))) =
           calls w @ UnsetCertIssuerCall a c # later"
proof -
  obtain res r where u: "AppUnsetCertIssuer provider a c (remote w) = (res, r)"
    by (cases "AppUnsetCertIssuer provider a c (remote w)")
  show ?thesis
  proof (cases res)
    case (Some err)
    from Unset_remote_error [OF assms u [unfolded Some]] show ?thesis
      by simp
  next
    case None
    let ?w1 = "\<lparr>remote = r, calls = calls w @ [UnsetCertIssuerCall a c]\<rparr>"
    from Read_calls [of provider d ?w1]
    obtain later where
      "calls (snd (snd (resourceTsuruCertificateIssuerRead provider d ?w1))) = calls ?w1 @ later"
      by blast
    then have "calls (snd (snd (resourceTsuruCertificateIssuerUnset provider d w))) =
        calls w @ UnsetCertIssuerCall a c # later"
      by (simp add: Unset_ok [OF assms u [unfolded None]])
    then show ?thesis
      by blast
  qed
qed

subsection \<open>The examples, evaluated\<close>

lemma exampleData_parts: "IDtoParts (ID exampleData) 3 = Inr [''a'', ''c'', ''le'']"
  by (simp add: exampleData_def IDtoParts_def idSeparator_def)

lemma example_routerNames: "routerNames ''c'' ''le'' exampleRouters = [''r2'', ''r1'']"
  by (simp add: routerNames_def matchingRouters_def usesIssuer_def exampleRouters_def)

lemma example_issuedCertificates: "issuedCertificates ''c'' ''le'' exampleRouters = [''pem'']"
  by (simp add: issuedCertificates_def matchingRouters_def usesIssuer_def certificateOf_def
      exampleRouters_def)

lemma exampleApi_get:
  "AppGetCertificates exampleApi ''a'' (remote emptyWorld) = (Inr exampleCertificates, ())"
  by (simp add: exampleApi_def stubApi_def)

lemma exampleApi_read:
  "resourceTsuruCertificateIssuerRead exampleApi exampleData emptyWorld =
     (Return [], exampleResult, \<lparr>remote = (), calls = [GetCertificatesCall ''a'']\<rparr>)"
  using Read_ok [OF exampleData_parts exampleApi_get]
  by (simp add: example_routerNames example_issuedCertificates exampleCertificates_def
      exampleResult_def exampleData_def emptyWorld_def)

section \<open>The claims\<close>

text \<open>
  C1. When the identifier parses and the remote returns a certificate listing, the read
  puts a router name into the router list if and only if that router's CNAME table has an
  entry for the target CNAME whose issuer is the target issuer, and the certificate list
  holds exactly the non-empty certificate values of those routers (as sets, and with the
  multiplicities of the listing).
\<close>

theorem read_routers_and_certificates:
  assumes "IDtoParts (ID d) 3 = Inr (a # c # i # rest)"
    and "AppGetCertificates provider a (remote w) = (Inr certificates, r)"
    and "resourceTsuruCertificateIssuerRead provider d w = (out, d', w')"
  shows "(n \<in> set (router_attr d') \<longleftrightarrow>
            (\<exists>router e. (n, router) \<in> set (Routers certificates) \<and>
               Cnames router c = Some e \<and> Issuer e = i)) \<and>
         (s \<in> set (certificate_attr d') \<longleftrightarrow>
            s \<noteq> [] \<and>
            (\<exists>m router e. (m, router) \<in> set (Routers certificates) \<and>
               Cnames router c = Some e \<and> Issuer e = i \<and> Certificate e = s)) \<and>
         mset (router_attr d') = mset (routerNames c i (Routers certificates)) \<and>
         mset (certificate_attr d') = mset (issuedCertificates c i (Routers certificates))"
proof -
  from Read_ok [OF assms(1,2)] assms(3)
  have d': "d' = d\<lparr>app_attr := a, cname_attr := c, issuer_attr := i,
        router_attr := sort (routerNames c i (Routers certificates)),
        certificate_attr := sort (issuedCertificates c i (Routers certificates)),
        ready_attr := (issuedCertificates c i (Routers certificates) \<noteq> [])\<rparr>"
    by simp
  show ?thesis
    unfolding d' by (simp add: routerNames_set issuedCertificates_set)
qed

theorem read_routers_and_certificates_witness:
  "IDtoParts (ID exampleData) 3 = Inr [''a'', ''c'', ''le''] \<and>
   AppGetCertificates exampleApi ''a'' (remote emptyWorld) = (Inr exampleCertificates, ()) \<and>
   resourceTsuruCertificateIssuerRead exampleApi exampleData emptyWorld =
     (Return [], exampleResult, \<lparr>remote = (), calls = [GetCertificatesCall ''a'']\<rparr>) \<and>
   (''r1'' \<in> set (router_attr exampleResult) \<longleftrightarrow>
      (\<exists>router e. (''r1'', router) \<in> set (Routers exampleCertificates) \<and>
         Cnames router ''c'' = Some e \<and> Issuer e = ''le'')) \<and>
   (''pem'' \<in> set (certificate_attr exampleResult) \<longleftrightarrow>
      ''pem'' \<noteq> [] \<and>
      (\<exists>m router e. (m, router) \<in> set (Routers exampleCertificates) \<and>
         Cnames router ''c'' = Some e \<and> Issuer e = ''le'' \<and> Certificate e = ''pem'')) \<and>
   mset (router_attr exampleResult) = mset (routerNames ''c'' ''le'' (Routers exampleCertificates)) \<and>
   mset (certificate_attr exampleResult) =
     mset (issuedCertificates ''c'' ''le'' (Routers exampleCertificates)) \<and>
   router_attr exampleResult = [''r1'', ''r2''] \<and> certificate_attr exampleResult = [''pem'']"
proof -
  note t = read_routers_and_certificates
    [OF exampleData_parts exampleApi_get exampleApi_read, of "''r1''" "''pem''"]
  have "router_attr exampleResult = [''r1'', ''r2''] \<and> certificate_attr exampleResult = [''pem'']"
    by (simp add: exampleResult_def)
  with t exampleData_parts exampleApi_get exampleApi_read show ?thesis
    by (intro conjI) (elim conjE, assumption)+
qed

text \<open>
  C2. For a valid triple, the identifier the set handler composes
  (\<open>app @ ''::'' @ cname @ ''::'' @ issuer\<close>, which a successful set stores) is taken apart
  again into the same three values by the handlers that read it: the read that ends the
  set, and any later read of a resource holding that identifier, call the remote for the
  listing of \<open>app\<close>, select the routers by \<open>cname\<close> and \<open>issuer\<close> and write \<open>app\<close>,
  \<open>cname\<close> and \<open>issuer\<close> back unchanged; an unset of such a resource calls the remote
  unassign operation with \<open>app\<close> and \<open>cname\<close>.
\<close>

theorem identifier_round_trip:
  assumes "validTriple (app_attr d) (cname_attr d) (issuer_attr d)"
    and "AppSetCertIssuer provider (app_attr d)
           (CertIssuerSetData (cname_attr d) (issuer_attr d)) (remote w) = (None, r)"
    and "resourceTsuruCertificateIssuerSet provider d w = (out, d', w')"
    and "ID d2 = ID d'"
  shows "ID d' = app_attr d @ ''::'' @ cname_attr d @ ''::'' @ issuer_attr d \<and>
         IDtoParts (ID d') 3 = Inr [app_attr d, cname_attr d, issuer_attr d] \<and>
         (\<forall>certificates r1.
            AppGetCertificates provider (app_attr d) r = (Inr certificates, r1) \<longrightarrow>
            out = Return [] \<and>
            app_attr d' = app_attr d \<and> cname_attr d' = cname_attr d \<and>
            issuer_attr d' = issuer_attr d \<and>
            router_attr d' =
              sort (routerNames (cname_attr d) (issuer_attr d) (Routers certificates)) \<and>
            certificate_attr d' =
              sort (issuedCertificates (cname_attr d) (issuer_attr d) (Routers certificates)) \<and>
            w' = \<lparr>remote = r1, calls = calls w @
              [SetCertIssuerCall (app_attr d) (CertIssuerSetData (cname_attr d) (issuer_attr d)),
               GetCertificatesCall (app_attr d)]\<rparr>) \<and>
         (\<forall>certificates r2.
            AppGetCertificates provider (app_attr d) (remote w2) = (Inr certificates, r2) \<longrightarrow>
            resourceTsuruCertificateIssuerRead provider d2 w2 =
              (Return [],
               d2\<lparr>app_attr := app_attr d, cname_attr := cname_attr d,
                 issuer_attr := issuer_attr d,
                 router_attr :=
                   sort (routerNames (cname_attr d) (issuer_attr d) (Routers certificates)),
                 certificate_attr :=
                   sort (issuedCertificates (cname_attr d) (issuer_attr d)
                     (Routers certificates)),
                 ready_attr :=
                   (issuedCertificates (cname_attr d) (issuer_attr d) (Routers certificates)
                      \<noteq> [])\<rparr>,
               \<lparr>remote = r2, calls = calls w2 @ [GetCertificatesCall (app_attr d)]\<rparr>)) \<and>
         (\<exists>later. calls (snd (snd (resourceTsuruCertificateIssuerUnset provider d2 w2))) =
            calls w2 @ UnsetCertIssuerCall (app_attr d) (cname_attr d) # later)"
proof -
  let ?composed = "app_attr d @ ''::'' @ cname_attr d @ ''::'' @ issuer_attr d"
  let ?d1 = "d\<lparr>ID := ?composed\<rparr>"
  let ?setCall =
    "SetCertIssuerCall (app_attr d) (CertIssuerSetData (cname_attr d) (issuer_attr d))"
  let ?w1 = "\<lparr>remote = r, calls = calls w @ [?setCall]\<rparr>"
  from assms(3) [unfolded Set_ok [OF assms(2)]]
  have rd: "resourceTsuruCertificateIssuerRead provider ?d1 ?w1 = (out, d', w')" .
  from Read_ID [of provider ?d1 ?w1] rd have id: "ID d' = ?composed"
    by simp
  have parts: "IDtoParts ?composed 3 = Inr [app_attr d, cname_attr d, issuer_attr d]"
    by (rule IDtoParts_compose [OF assms(1)])
  from parts id have p': "IDtoParts (ID d') 3 = Inr [app_attr d, cname_attr d, issuer_attr d]"
    by simp
  from parts have p1: "IDtoParts (ID ?d1) 3 = Inr [app_attr d, cname_attr d, issuer_attr d]"
    by simp
  from p' assms(4) have p2: "IDtoParts (ID d2) 3 = Inr [app_attr d, cname_attr d, issuer_attr d]"
    by simp
  have own: "out = Return [] \<and>
      app_attr d' = app_attr d \<and> cname_attr d' = cname_attr d \<and>
      issuer_attr d' = issuer_attr d \<and>
      router_attr d' =
        sort (routerNames (cname_attr d) (issuer_attr d) (Routers certificates)) \<and>
      certificate_attr d' =
        sort (issuedCertificates (cname_attr d) (issuer_attr d) (Routers certificates)) \<and>
      w' = \<lparr>remote = r1, calls = calls w @ [?setCall, GetCertificatesCall (app_attr d)]\<rparr>"
    if g: "AppGetCertificates provider (app_attr d) r = (Inr certificates, r1)"
    for certificates r1
  proof -
    from g have g1: "AppGetCertificates provider (app_attr d) (remote ?w1) =
        (Inr certificates, r1)"
      by simp
    from rd [unfolded Read_ok [OF p1 g1]] show ?thesis
      by auto
  qed
  have later_read: "resourceTsuruCertificateIssuerRead provider d2 w2 =
      (Return [],
       d2\<lparr>app_attr := app_attr d, cname_attr := cname_attr d, issuer_attr := issuer_attr d,
         router_attr :=
           sort (routerNames (cname_attr d) (issuer_attr d) (Routers certificates)),
         certificate_attr :=
           sort (issuedCertificates (cname_attr d) (issuer_attr d) (Routers certificates)),
         ready_attr :=
           (issuedCertificates (cname_attr d) (issuer_attr d) (Routers certificates) \<noteq> [])\<rparr>,
       \<lparr>remote = r2, calls = calls w2 @ [GetCertificatesCall (app_attr d)]\<rparr>)"
    if g: "AppGetCertificates provider (app_attr d) (remote w2) = (Inr certificates, r2)"
    for certificates r2
    by (rule Read_ok [OF p2 g])
  note later_unset = Unset_first_call [OF p2, of provider w2]
  from id p' own later_read later_unset show ?thesis
    by blast
qed

theorem identifier_round_trip_witness:
  "validTriple (app_attr exampleData) (cname_attr exampleData) (issuer_attr exampleData) \<and>
   AppSetCertIssuer exampleApi (app_attr exampleData)
     (CertIssuerSetData (cname_attr exampleData) (issuer_attr exampleData)) (remote emptyWorld) =
     (None, ()) \<and>
   ID importedData =
     ID (fst (snd (resourceTsuruCertificateIssuerSet exampleApi (exampleData\<lparr>ID := []\<rparr>)
       emptyWorld))) \<and>
   AppGetCertificates exampleApi ''a'' () = (Inr exampleCertificates, ()) \<and>
   ID (fst (snd (resourceTsuruCertificateIssuerSet exampleApi (exampleData\<lparr>ID := []\<rparr>)
     emptyWorld))) = ''a::c::le'' \<and>
   IDtoParts (ID (fst (snd (resourceTsuruCertificateIssuerSet exampleApi
     (exampleData\<lparr>ID := []\<rparr>) emptyWorld)))) 3 = Inr [''a'', ''c'', ''le''] \<and>
   resourceTsuruCertificateIssuerSet exampleApi (exampleData\<lparr>ID := []\<rparr>) emptyWorld =
     (Return [], exampleResult,
      \<lparr>remote = (),
        calls = [SetCertIssuerCall ''a'' (CertIssuerSetData ''c'' ''le''),
                 GetCertificatesCall ''a'']\<rparr>) \<and>
   resourceTsuruCertificateIssuerRead exampleApi importedData emptyWorld =
     (Return [],
      importedData\<lparr>app_attr := ''a'', cname_attr := ''c'', issuer_attr := ''le'',
        router_attr := [''r1'', ''r2''], certificate_attr := [''pem''], ready_attr := True\<rparr>,
      \<lparr>remote = (), calls = [GetCertificatesCall ''a'']\<rparr>) \<and>
   (\<exists>later. calls (snd (snd (resourceTsuruCertificateIssuerUnset exampleApi importedData
       emptyWorld))) = calls emptyWorld @ UnsetCertIssuerCall ''a'' ''c'' # later)"
proof -
  let ?d = "exampleData\<lparr>ID := []\<rparr>"
  let ?run = "resourceTsuruCertificateIssuerSet exampleApi ?d emptyWorld"
  have v: "validTriple (app_attr ?d) (cname_attr ?d) (issuer_attr ?d)"
    by (simp add: exampleData_def validTriple_def validField_def idSeparator_def)
  have s: "AppSetCertIssuer exampleApi (app_attr ?d)
     (CertIssuerSetData (cname_attr ?d) (issuer_attr ?d)) (remote emptyWorld) = (None, ())"
    by (simp add: exampleApi_def stubApi_def)
  have f: "app_attr ?d = ''a''" "cname_attr ?d = ''c''" "issuer_attr ?d = ''le''"
    by (simp_all add: exampleData_def)
  have g: "AppGetCertificates exampleApi ''a'' () = (Inr exampleCertificates, ())"
    by (simp add: exampleApi_def stubApi_def)
  have e: "?run = (fst ?run, fst (snd ?run), snd (snd ?run))"
    by simp
  have composed: "?d\<lparr>ID := app_attr ?d @ ''::'' @ cname_attr ?d @ ''::'' @ issuer_attr ?d\<rparr> =
      exampleData"
    by (simp add: exampleData_def)
  have i: "ID importedData = ID (fst (snd ?run))"
    unfolding Set_ok [OF s] composed Read_ID by (simp add: importedData_def exampleData_def)
  note t = identifier_round_trip [OF v s e i, of emptyWorld, unfolded f]
  from t have t1: "ID (fst (snd ?run)) = ''a::c::le''"
    by simp
  from t have t2: "IDtoParts (ID (fst (snd ?run))) 3 = Inr [''a'', ''c'', ''le'']"
    by blast
  from t g have own: "fst ?run = Return [] \<and>
      app_attr (fst (snd ?run)) = ''a'' \<and> cname_attr (fst (snd ?run)) = ''c'' \<and>
      issuer_attr (fst (snd ?run)) = ''le'' \<and>
      router_attr (fst (snd ?run)) =
        sort (routerNames ''c'' ''le'' (Routers exampleCertificates)) \<and>
      certificate_attr (fst (snd ?run)) =
        sort (issuedCertificates ''c'' ''le'' (Routers exampleCertificates)) \<and>
      snd (snd ?run) = \<lparr>remote = (), calls = calls emptyWorld @
        [SetCertIssuerCall ''a'' (CertIssuerSetData ''c'' ''le''), GetCertificatesCall ''a'']\<rparr>"
    by blast
  have ready: "ready_attr (fst (snd ?run))"
    unfolding Set_ok [OF s] composed
    using Read_ok [OF exampleData_parts, of exampleApi
        "\<lparr>remote = (), calls = calls emptyWorld @
           [SetCertIssuerCall (app_attr ?d)
              (CertIssuerSetData (cname_attr ?d) (issuer_attr ?d))]\<rparr>"
        exampleCertificates "()"] g
    by (simp add: example_issuedCertificates exampleCertificates_def)
  have t3: "?run =
     (Return [], exampleResult,
      \<lparr>remote = (),
        calls = [SetCertIssuerCall ''a'' (CertIssuerSetData ''c'' ''le''),
                 GetCertificatesCall ''a'']\<rparr>)"
    using own ready t1
    by (simp add: prod_eq_iff ResourceData.equality exampleResult_def exampleData_def
        example_routerNames example_issuedCertificates exampleCertificates_def emptyWorld_def)
  from t g have "resourceTsuruCertificateIssuerRead exampleApi importedData emptyWorld =
     (Return [],
      importedData\<lparr>app_attr := ''a'', cname_attr := ''c'', issuer_attr := ''le'',
        router_attr := sort (routerNames ''c'' ''le'' (Routers exampleCertificates)),
        certificate_attr := sort (issuedCertificates ''c'' ''le'' (Routers exampleCertificates)),
        ready_attr := (issuedCertificates ''c'' ''le'' (Routers exampleCertificates) \<noteq> [])\<rparr>,
      \<lparr>remote = (), calls = calls emptyWorld @ [GetCertificatesCall ''a'']\<rparr>)"
    by (simp add: emptyWorld_def)
  then have t4: "resourceTsuruCertificateIssuerRead exampleApi importedData emptyWorld =
     (Return [],
      importedData\<lparr>app_attr := ''a'', cname_attr := ''c'', issuer_attr := ''le'',
        router_attr := [''r1'', ''r2''], certificate_attr := [''pem''], ready_attr := True\<rparr>,
      \<lparr>remote = (), calls = [GetCertificatesCall ''a'']\<rparr>)"
    by (simp add: example_routerNames example_issuedCertificates exampleCertificates_def
        emptyWorld_def)
  from t have t5: "\<exists>later. calls (snd (snd (resourceTsuruCertificateIssuerUnset exampleApi
      importedData emptyWorld))) = calls emptyWorld @ UnsetCertIssuerCall ''a'' ''c'' # later"
    by blast
  have v': "validTriple (app_attr exampleData) (cname_attr exampleData) (issuer_attr exampleData)"
    using v by simp
  have s': "AppSetCertIssuer exampleApi (app_attr exampleData)
     (CertIssuerSetData (cname_attr exampleData) (issuer_attr exampleData)) (remote emptyWorld) =
     (None, ())"
    using s by simp
  from v' s' i g t1 t2 t3 t4 t5 show ?thesis
    by (intro conjI)
qed

text \<open>
  The hypothesis is needed: a field that contains the delimiter, or an application name
  that ends in a colon, is not read back.
\<close>

lemma colon_fields_not_read_back:
  "IDtoParts (''a::b'' @ ''::'' @ ''c'' @ ''::'' @ ''le'') 3 \<noteq> Inr [''a::b'', ''c'', ''le'']"
  "IDtoParts (''a:'' @ ''::'' @ ''c'' @ ''::'' @ ''le'') 3 \<noteq> Inr [''a:'', ''c'', ''le'']"
  by (simp_all add: IDtoParts_def idSeparator_def)

text \<open>
  C3. When the identifier parses and the remote returns a certificate listing, the read
  sets \<open>ready\<close> to true if and only if some router matching the target CNAME and issuer
  has a non-empty certificate, that is, if and only if the certificate list it writes is
  not empty.
\<close>

theorem read_ready_iff_certificate_found:
  assumes "IDtoParts (ID d) 3 = Inr (a # c # i # rest)"
    and "AppGetCertificates provider a (remote w) = (Inr certificates, r)"
    and "resourceTsuruCertificateIssuerRead provider d w = (out, d', w')"
  shows "(ready_attr d' \<longleftrightarrow>
            (\<exists>n router e. (n, router) \<in> set (Routers certificates) \<and>
               Cnames router c = Some e \<and> Issuer e = i \<and> Certificate e \<noteq> [])) \<and>
         (ready_attr d' \<longleftrightarrow> certificate_attr d' \<noteq> [])"
proof -
  let ?certs = "issuedCertificates c i (Routers certificates)"
  from Read_ok [OF assms(1,2)] assms(3)
  have d': "d' = d\<lparr>app_attr := a, cname_attr := c, issuer_attr := i,
        router_attr := sort (routerNames c i (Routers certificates)),
        certificate_attr := sort ?certs, ready_attr := (?certs \<noteq> [])\<rparr>"
    by simp
  have "?certs \<noteq> [] \<longleftrightarrow> (\<exists>s. s \<in> set ?certs)"
    by (cases ?certs) auto
  also have "\<dots> \<longleftrightarrow> (\<exists>n router e. (n, router) \<in> set (Routers certificates) \<and>
               Cnames router c = Some e \<and> Issuer e = i \<and> Certificate e \<noteq> [])"
    unfolding issuedCertificates_set by blast
  finally have found: "?certs \<noteq> [] \<longleftrightarrow>
      (\<exists>n router e. (n, router) \<in> set (Routers certificates) \<and>
               Cnames router c = Some e \<and> Issuer e = i \<and> Certificate e \<noteq> [])" .
  have sorted_empty: "sort ?certs \<noteq> [] \<longleftrightarrow> ?certs \<noteq> []"
    by (metis length_sort length_0_conv)
  show ?thesis
    unfolding d' using found sorted_empty by simp
qed

theorem read_ready_iff_certificate_found_witness:
  "IDtoParts (ID exampleData) 3 = Inr [''a'', ''c'', ''le''] \<and>
   AppGetCertificates exampleApi ''a'' (remote emptyWorld) = (Inr exampleCertificates, ()) \<and>
   resourceTsuruCertificateIssuerRead exampleApi exampleData emptyWorld =
     (Return [], exampleResult, \<lparr>remote = (), calls = [GetCertificatesCall ''a'']\<rparr>) \<and>
   (ready_attr exampleResult \<longleftrightarrow>
      (\<exists>n router e. (n, router) \<in> set (Routers exampleCertificates) \<and>
         Cnames router ''c'' = Some e \<and> Issuer e = ''le'' \<and> Certificate e \<noteq> [])) \<and>
   (ready_attr exampleResult \<longleftrightarrow> certificate_attr exampleResult \<noteq> []) \<and>
   ready_attr exampleResult"
proof -
  note t = read_ready_iff_certificate_found
    [OF exampleData_parts exampleApi_get exampleApi_read]
  have "ready_attr exampleResult"
    by (simp add: exampleResult_def)
  with t exampleData_parts exampleApi_get exampleApi_read show ?thesis
    by (intro conjI) (elim conjE, assumption)+
qed

text \<open>
  C4. When the identifier parses and the remote returns a certificate listing, the router
  list and the certificate list the read writes are sorted, and the read gives the same
  result (diagnostics, resource data, remote state and calls) for a listing with the same
  entries visited in another order.
\<close>

theorem read_sorted_and_order_independent:
  assumes "IDtoParts (ID d) 3 = Inr (a # c # i # rest)"
    and "AppGetCertificates provider a (remote w) = (Inr certificates, r)"
    and "AppGetCertificates provider' a (remote w) = (Inr certificates', r)"
    and "mset (Routers certificates) = mset (Routers certificates')"
    and "resourceTsuruCertificateIssuerRead provider d w = (out, d', w')"
  shows "sorted (router_attr d') \<and> sorted (certificate_attr d') \<and>
         resourceTsuruCertificateIssuerRead provider' d w = (out, d', w')"
proof -
  from Read_ok [OF assms(1,2)] assms(5)
  have d': "d' = d\<lparr>app_attr := a, cname_attr := c, issuer_attr := i,
        router_attr := sort (routerNames c i (Routers certificates)),
        certificate_attr := sort (issuedCertificates c i (Routers certificates)),
        ready_attr := (issuedCertificates c i (Routers certificates) \<noteq> [])\<rparr>"
    by simp
  have rn: "sort (routerNames c i (Routers certificates')) =
      sort (routerNames c i (Routers certificates))"
    by (rule sort_cong_mset) (simp only: routerNames_mset [OF assms(4)])
  have ic: "sort (issuedCertificates c i (Routers certificates')) =
      sort (issuedCertificates c i (Routers certificates))"
    by (rule sort_cong_mset) (simp only: issuedCertificates_mset [OF assms(4)])
  have "mset (issuedCertificates c i (Routers certificates')) =
      mset (issuedCertificates c i (Routers certificates))"
    by (simp only: issuedCertificates_mset [OF assms(4)])
  then have ne: "issuedCertificates c i (Routers certificates') \<noteq> [] \<longleftrightarrow>
      issuedCertificates c i (Routers certificates) \<noteq> []"
    by (metis mset_zero_iff)
  have same: "resourceTsuruCertificateIssuerRead provider' d w =
      resourceTsuruCertificateIssuerRead provider d w"
    unfolding Read_ok [OF assms(1,3)] Read_ok [OF assms(1,2)] rn ic ne ..
  have "sorted (router_attr d')" and "sorted (certificate_attr d')"
    unfolding d' by simp_all
  with same assms(5) show ?thesis
    by simp
qed

theorem read_sorted_and_order_independent_witness:
  "IDtoParts (ID exampleData) 3 = Inr [''a'', ''c'', ''le''] \<and>
   AppGetCertificates exampleApi ''a'' (remote emptyWorld) = (Inr exampleCertificates, ()) \<and>
   AppGetCertificates (stubApi None None (Inr \<lparr>Routers = rev exampleRouters\<rparr>)) ''a''
     (remote emptyWorld) = (Inr \<lparr>Routers = rev exampleRouters\<rparr>, ()) \<and>
   mset (Routers exampleCertificates) = mset (Routers \<lparr>Routers = rev exampleRouters\<rparr>) \<and>
   resourceTsuruCertificateIssuerRead exampleApi exampleData emptyWorld =
     (Return [], exampleResult, \<lparr>remote = (), calls = [GetCertificatesCall ''a'']\<rparr>) \<and>
   sorted (router_attr exampleResult) \<and> sorted (certificate_attr exampleResult) \<and>
   resourceTsuruCertificateIssuerRead (stubApi None None (Inr \<lparr>Routers = rev exampleRouters\<rparr>))
     exampleData emptyWorld =
     (Return [], exampleResult, \<lparr>remote = (), calls = [GetCertificatesCall ''a'']\<rparr>)"
proof -
  have g': "AppGetCertificates (stubApi None None (Inr \<lparr>Routers = rev exampleRouters\<rparr>)) ''a''
     (remote emptyWorld) = (Inr \<lparr>Routers = rev exampleRouters\<rparr>, ())"
    by (simp add: stubApi_def)
  have m: "mset (Routers exampleCertificates) = mset (Routers \<lparr>Routers = rev exampleRouters\<rparr>)"
    by (simp add: exampleCertificates_def)
  note t = read_sorted_and_order_independent
    [OF exampleData_parts exampleApi_get g' m exampleApi_read]
  with exampleData_parts exampleApi_get g' m exampleApi_read show ?thesis
    by (intro conjI) (elim conjE, assumption)+
qed

text \<open>
  C5. The set handler first calls the remote assign operation with the application, the
  CNAME and the issuer of the resource data. If that call fails, it returns the diagnostic
  \<open>unable to set certificate issuer: \<close> followed by the remote error, makes no other call
  and leaves the resource data, its identifier included, as it was. If it succeeds, the
  handler's result is the read's result on the resource data with the identifier set to
  \<open>app @ ''::'' @ cname @ ''::'' @ issuer\<close>, and that identifier is the one it leaves.
\<close>

theorem set_assigns_then_reads:
  assumes "AppSetCertIssuer provider (app_attr d)
             (CertIssuerSetData (cname_attr d) (issuer_attr d)) (remote w) = (res, r)"
    and "resourceTsuruCertificateIssuerSet provider d w = (out, d', w')"
  shows "(\<exists>later. calls w' = calls w @
            SetCertIssuerCall (app_attr d) (CertIssuerSetData (cname_attr d) (issuer_attr d)) #
            later) \<and>
         (\<forall>err. res = Some err \<longrightarrow>
            out = Return [DiagError (''unable to set certificate issuer: '' @ err)] \<and>
            d' = d \<and>
            w' = \<lparr>remote = r, calls = calls w @
              [SetCertIssuerCall (app_attr d)
                 (CertIssuerSetData (cname_attr d) (issuer_attr d))]\<rparr>) \<and>
         (res = None \<longrightarrow>
            ID d' = app_attr d @ ''::'' @ cname_attr d @ ''::'' @ issuer_attr d \<and>
            (out, d', w') =
              resourceTsuruCertificateIssuerRead provider
                (d\<lparr>ID := app_attr d @ ''::'' @ cname_attr d @ ''::'' @ issuer_attr d\<rparr>)
                \<lparr>remote = r, calls = calls w @
                  [SetCertIssuerCall (app_attr d)
                     (CertIssuerSetData (cname_attr d) (issuer_attr d))]\<rparr>)"
proof (cases res)
  case (Some err)
  from assms(2) [unfolded Set_remote_error [OF assms(1) [unfolded Some]]] Some
  show ?thesis by auto
next
  case None
  let ?d1 = "d\<lparr>ID := app_attr d @ ''::'' @ cname_attr d @ ''::'' @ issuer_attr d\<rparr>"
  let ?w1 = "\<lparr>remote = r, calls = calls w @
      [SetCertIssuerCall (app_attr d) (CertIssuerSetData (cname_attr d) (issuer_attr d))]\<rparr>"
  from assms(2) [unfolded Set_ok [OF assms(1) [unfolded None]]]
  have rd: "resourceTsuruCertificateIssuerRead provider ?d1 ?w1 = (out, d', w')" .
  from Read_ID [of provider ?d1 ?w1] rd
  have id: "ID d' = app_attr d @ ''::'' @ cname_attr d @ ''::'' @ issuer_attr d"
    by simp
  from Read_calls [of provider ?d1 ?w1] rd
  obtain later where "calls w' = calls ?w1 @ later"
    by auto
  then have "calls w' = calls w @
      SetCertIssuerCall (app_attr d) (CertIssuerSetData (cname_attr d) (issuer_attr d)) # later"
    by simp
  then have first: "\<exists>later. calls w' = calls w @
      SetCertIssuerCall (app_attr d) (CertIssuerSetData (cname_attr d) (issuer_attr d)) # later"
    by blast
  from first id rd [symmetric] None show ?thesis
    by simp
qed

theorem set_assigns_then_reads_witness:
  "AppSetCertIssuer (stubApi (Some ''boom'') None (Inr exampleCertificates)) ''a''
     (CertIssuerSetData ''c'' ''le'') (remote emptyWorld) = (Some ''boom'', ()) \<and>
   resourceTsuruCertificateIssuerSet (stubApi (Some ''boom'') None (Inr exampleCertificates))
     (exampleData\<lparr>ID := []\<rparr>) emptyWorld =
     (Return [DiagError ''unable to set certificate issuer: boom''], exampleData\<lparr>ID := []\<rparr>,
      \<lparr>remote = (), calls = [SetCertIssuerCall ''a'' (CertIssuerSetData ''c'' ''le'')]\<rparr>) \<and>
   AppSetCertIssuer exampleApi ''a'' (CertIssuerSetData ''c'' ''le'') (remote emptyWorld) =
     (None, ()) \<and>
   resourceTsuruCertificateIssuerSet exampleApi (exampleData\<lparr>ID := []\<rparr>) emptyWorld =
     (Return [], exampleResult,
      \<lparr>remote = (),
        calls = [SetCertIssuerCall ''a'' (CertIssuerSetData ''c'' ''le''),
                 GetCertificatesCall ''a'']\<rparr>)"
proof -
  let ?fresh = "exampleData\<lparr>ID := []\<rparr>"
  let ?down = "stubApi (Some ''boom'') None (Inr exampleCertificates)"
  let ?run1 = "resourceTsuruCertificateIssuerSet ?down ?fresh emptyWorld"
  let ?run2 = "resourceTsuruCertificateIssuerSet exampleApi ?fresh emptyWorld"
  have f: "app_attr ?fresh = ''a''" "cname_attr ?fresh = ''c''" "issuer_attr ?fresh = ''le''"
    by (simp_all add: exampleData_def)
  have s1: "AppSetCertIssuer ?down (app_attr ?fresh)
      (CertIssuerSetData (cname_attr ?fresh) (issuer_attr ?fresh)) (remote emptyWorld) =
      (Some ''boom'', ())"
    by (simp add: stubApi_def)
  have s2: "AppSetCertIssuer exampleApi (app_attr ?fresh)
      (CertIssuerSetData (cname_attr ?fresh) (issuer_attr ?fresh)) (remote emptyWorld) =
      (None, ())"
    by (simp add: exampleApi_def stubApi_def)
  have e1: "?run1 = (fst ?run1, fst (snd ?run1), snd (snd ?run1))" by simp
  have e2: "?run2 = (fst ?run2, fst (snd ?run2), snd (snd ?run2))" by simp
  have composed: "?fresh\<lparr>ID := app_attr ?fresh @ ''::'' @ cname_attr ?fresh @ ''::'' @
      issuer_attr ?fresh\<rparr> = exampleData"
    by (simp add: exampleData_def)
  have rd: "resourceTsuruCertificateIssuerRead exampleApi exampleData
      \<lparr>remote = (), calls = calls emptyWorld @
         [SetCertIssuerCall (app_attr ?fresh)
            (CertIssuerSetData (cname_attr ?fresh) (issuer_attr ?fresh))]\<rparr> =
     (Return [], exampleResult,
      \<lparr>remote = (),
        calls = [SetCertIssuerCall ''a'' (CertIssuerSetData ''c'' ''le''),
                 GetCertificatesCall ''a'']\<rparr>)"
    using Read_ok [OF exampleData_parts, of exampleApi
        "\<lparr>remote = (), calls = calls emptyWorld @
           [SetCertIssuerCall (app_attr ?fresh)
              (CertIssuerSetData (cname_attr ?fresh) (issuer_attr ?fresh))]\<rparr>"
        exampleCertificates "()"]
    by (simp add: example_routerNames example_issuedCertificates exampleCertificates_def
        exampleResult_def exampleData_def emptyWorld_def exampleApi_def stubApi_def)
  from set_assigns_then_reads [OF s1 e1]
  have "fst ?run1 = Return [DiagError (''unable to set certificate issuer: '' @ ''boom'')] \<and>
      fst (snd ?run1) = ?fresh \<and>
      snd (snd ?run1) = \<lparr>remote = (), calls = calls emptyWorld @
         [SetCertIssuerCall (app_attr ?fresh)
            (CertIssuerSetData (cname_attr ?fresh) (issuer_attr ?fresh))]\<rparr>"
    by blast
  then have t1: "?run1 =
     (Return [DiagError ''unable to set certificate issuer: boom''], ?fresh,
      \<lparr>remote = (), calls = [SetCertIssuerCall ''a'' (CertIssuerSetData ''c'' ''le'')]\<rparr>)"
    by (simp add: prod_eq_iff f emptyWorld_def)
  from set_assigns_then_reads [OF s2 e2]
  have "(fst ?run2, fst (snd ?run2), snd (snd ?run2)) =
      resourceTsuruCertificateIssuerRead exampleApi
        (?fresh\<lparr>ID := app_attr ?fresh @ ''::'' @ cname_attr ?fresh @ ''::'' @
           issuer_attr ?fresh\<rparr>)
        \<lparr>remote = (), calls = calls emptyWorld @
           [SetCertIssuerCall (app_attr ?fresh)
              (CertIssuerSetData (cname_attr ?fresh) (issuer_attr ?fresh))]\<rparr>"
    by blast
  then have t2: "?run2 =
     (Return [], exampleResult,
      \<lparr>remote = (),
        calls = [SetCertIssuerCall ''a'' (CertIssuerSetData ''c'' ''le''),
                 GetCertificatesCall ''a'']\<rparr>)"
    unfolding composed rd by simp
  from s1 t1 s2 t2 show ?thesis
    by (simp only: f)
qed

text \<open>
  C6. For an identifier that parses, the unset handler first calls the remote unassign
  operation with the application and the CNAME of the identifier. If that call fails, it
  returns the diagnostic \<open>unable to unset certificate issuer: \<close> followed by the remote
  error, makes no other call and leaves the resource data as it was. If it succeeds, the
  handler's result is the read's result.
\<close>

theorem unset_unassigns_then_reads:
  assumes "IDtoParts (ID d) 3 = Inr (a # c # i # rest)"
    and "AppUnsetCertIssuer provider a c (remote w) = (res, r)"
    and "resourceTsuruCertificateIssuerUnset provider d w = (out, d', w')"
  shows "(\<exists>later. calls w' = calls w @ UnsetCertIssuerCall a c # later) \<and>
         (\<forall>err. res = Some err \<longrightarrow>
            out = Return [DiagError (''unable to unset certificate issuer: '' @ err)] \<and>
            d' = d \<and>
            w' = \<lparr>remote = r, calls = calls w @ [UnsetCertIssuerCall a c]\<rparr>) \<and>
         (res = None \<longrightarrow>
            (out, d', w') =
              resourceTsuruCertificateIssuerRead provider d
                \<lparr>remote = r, calls = calls w @ [UnsetCertIssuerCall a c]\<rparr>)"
proof (cases res)
  case (Some err)
  from assms(3) [unfolded Unset_remote_error [OF assms(1) assms(2) [unfolded Some]]] Some
  show ?thesis by auto
next
  case None
  let ?w1 = "\<lparr>remote = r, calls = calls w @ [UnsetCertIssuerCall a c]\<rparr>"
  from assms(3) [unfolded Unset_ok [OF assms(1) assms(2) [unfolded None]]]
  have rd: "resourceTsuruCertificateIssuerRead provider d ?w1 = (out, d', w')" .
  from Read_calls [of provider d ?w1] rd
  obtain later where "calls w' = calls ?w1 @ later"
    by auto
  then have "calls w' = calls w @ UnsetCertIssuerCall a c # later"
    by simp
  then have first: "\<exists>later. calls w' = calls w @ UnsetCertIssuerCall a c # later"
    by blast
  from first rd [symmetric] None show ?thesis
    by simp
qed

theorem unset_unassigns_then_reads_witness:
  "IDtoParts (ID exampleData) 3 = Inr [''a'', ''c'', ''le''] \<and>
   AppUnsetCertIssuer (stubApi None (Some ''boom'') (Inr exampleCertificates)) ''a'' ''c''
     (remote emptyWorld) = (Some ''boom'', ()) \<and>
   resourceTsuruCertificateIssuerUnset (stubApi None (Some ''boom'') (Inr exampleCertificates))
     exampleData emptyWorld =
     (Return [DiagError ''unable to unset certificate issuer: boom''], exampleData,
      \<lparr>remote = (), calls = [UnsetCertIssuerCall ''a'' ''c'']\<rparr>) \<and>
   AppUnsetCertIssuer exampleApi ''a'' ''c'' (remote emptyWorld) = (None, ()) \<and>
   resourceTsuruCertificateIssuerUnset exampleApi exampleData emptyWorld =
     resourceTsuruCertificateIssuerRead exampleApi exampleData
       \<lparr>remote = (), calls = [UnsetCertIssuerCall ''a'' ''c'']\<rparr>"
proof -
  let ?down = "stubApi None (Some ''boom'') (Inr exampleCertificates)"
  let ?run1 = "resourceTsuruCertificateIssuerUnset ?down exampleData emptyWorld"
  let ?run2 = "resourceTsuruCertificateIssuerUnset exampleApi exampleData emptyWorld"
  have u1: "AppUnsetCertIssuer ?down ''a'' ''c'' (remote emptyWorld) = (Some ''boom'', ())"
    by (simp add: stubApi_def)
  have u2: "AppUnsetCertIssuer exampleApi ''a'' ''c'' (remote emptyWorld) = (None, ())"
    by (simp add: exampleApi_def stubApi_def)
  have e1: "?run1 = (fst ?run1, fst (snd ?run1), snd (snd ?run1))" by simp
  have e2: "?run2 = (fst ?run2, fst (snd ?run2), snd (snd ?run2))" by simp
  from unset_unassigns_then_reads [OF exampleData_parts u1 e1]
  have "fst ?run1 = Return [DiagError (''unable to unset certificate issuer: '' @ ''boom'')] \<and>
      fst (snd ?run1) = exampleData \<and>
      snd (snd ?run1) =
        \<lparr>remote = (), calls = calls emptyWorld @ [UnsetCertIssuerCall ''a'' ''c'']\<rparr>"
    by blast
  then have t1: "?run1 =
     (Return [DiagError ''unable to unset certificate issuer: boom''], exampleData,
      \<lparr>remote = (), calls = [UnsetCertIssuerCall ''a'' ''c'']\<rparr>)"
    by (simp add: prod_eq_iff emptyWorld_def)
  from unset_unassigns_then_reads [OF exampleData_parts u2 e2]
  have "(fst ?run2, fst (snd ?run2), snd (snd ?run2)) =
      resourceTsuruCertificateIssuerRead exampleApi exampleData
        \<lparr>remote = (), calls = calls emptyWorld @ [UnsetCertIssuerCall ''a'' ''c'']\<rparr>"
    by blast
  then have t2: "?run2 =
      resourceTsuruCertificateIssuerRead exampleApi exampleData
        \<lparr>remote = (), calls = [UnsetCertIssuerCall ''a'' ''c'']\<rparr>"
    by (simp add: emptyWorld_def)
  from exampleData_parts u1 t1 u2 t2 show ?thesis
    by (intro conjI)
qed

text \<open>
  C7. For an identifier that does not split into exactly three parts, the parser reports
  an error, and both the read handler and the unset handler return that error as their
  diagnostic, leaving the resource data, the remote state and the list of remote calls as
  they were: no remote call is made.
\<close>

theorem malformed_identifier_no_remote_call:
  assumes "length (splitId (ID d)) \<noteq> 3"
  shows "\<exists>err. IDtoParts (ID d) 3 = Inl err \<and>
           resourceTsuruCertificateIssuerRead provider d w = (Return [DiagError err], d, w) \<and>
           resourceTsuruCertificateIssuerUnset provider d w = (Return [DiagError err], d, w)"
proof -
  from assms have p: "IDtoParts (ID d) 3 = Inl idParseError"
    by (simp add: IDtoParts_error_iff)
  from p Read_parse_error [OF p] Unset_parse_error [OF p] show ?thesis
    by blast
qed

theorem malformed_identifier_no_remote_call_witness:
  "length (splitId (ID (exampleData\<lparr>ID := ''a::c''\<rparr>))) \<noteq> 3 \<and>
   (\<exists>err. IDtoParts (ID (exampleData\<lparr>ID := ''a::c''\<rparr>)) 3 = Inl err \<and>
      resourceTsuruCertificateIssuerRead exampleApi (exampleData\<lparr>ID := ''a::c''\<rparr>) emptyWorld =
        (Return [DiagError err], exampleData\<lparr>ID := ''a::c''\<rparr>, emptyWorld) \<and>
      resourceTsuruCertificateIssuerUnset exampleApi (exampleData\<lparr>ID := ''a::c''\<rparr>) emptyWorld =
        (Return [DiagError err], exampleData\<lparr>ID := ''a::c''\<rparr>, emptyWorld))"
proof -
  have l: "length (splitId (ID (exampleData\<lparr>ID := ''a::c''\<rparr>))) \<noteq> 3"
    by (simp add: idSeparator_def)
  from l malformed_identifier_no_remote_call [OF l, of exampleApi emptyWorld] show ?thesis
    by (rule conjI)
qed

text \<open>
  C8. When the identifier parses and the listing the remote returns has no router whose
  CNAME table maps the target CNAME to the target issuer, the read writes an empty router
  list, an empty certificate list and \<open>ready = false\<close>; so does the read that ends an unset
  whose remote call succeeded, when the listing fetched after it has no such router.
\<close>

theorem read_without_matching_router:
  assumes "IDtoParts (ID d) 3 = Inr (a # c # i # rest)"
    and "\<not> (\<exists>n router e. (n, router) \<in> set (Routers certificates) \<and>
              Cnames router c = Some e \<and> Issuer e = i)"
  shows "(AppGetCertificates provider a (remote w) = (Inr certificates, r) \<longrightarrow>
            resourceTsuruCertificateIssuerRead provider d w =
              (Return [],
               d\<lparr>app_attr := a, cname_attr := c, issuer_attr := i, router_attr := [],
                 certificate_attr := [], ready_attr := False\<rparr>,
               \<lparr>remote = r, calls = calls w @ [GetCertificatesCall a]\<rparr>)) \<and>
         (AppUnsetCertIssuer provider a c (remote w) = (None, r1) \<and>
          AppGetCertificates provider a r1 = (Inr certificates, r) \<longrightarrow>
            resourceTsuruCertificateIssuerUnset provider d w =
              (Return [],
               d\<lparr>app_attr := a, cname_attr := c, issuer_attr := i, router_attr := [],
                 certificate_attr := [], ready_attr := False\<rparr>,
               \<lparr>remote = r, calls = calls w @ [UnsetCertIssuerCall a c, GetCertificatesCall a]\<rparr>))"
proof -
  from assms(2) have "\<forall>entry \<in> set (Routers certificates). \<not> usesIssuer c i (snd entry)"
    unfolding usesIssuer_iff by (metis prod.collapse)
  then have "matchingRouters c i (Routers certificates) = []"
    by (simp add: matchingRouters_def filter_empty_conv)
  then have none: "routerNames c i (Routers certificates) = []"
    "issuedCertificates c i (Routers certificates) = []"
    by (simp_all add: routerNames_def issuedCertificates_def)
  have rd: "resourceTsuruCertificateIssuerRead provider d w0 =
      (Return [],
       d\<lparr>app_attr := a, cname_attr := c, issuer_attr := i, router_attr := [],
         certificate_attr := [], ready_attr := False\<rparr>,
       \<lparr>remote = r, calls = calls w0 @ [GetCertificatesCall a]\<rparr>)"
    if "AppGetCertificates provider a (remote w0) = (Inr certificates, r)" for w0
    using Read_ok [OF assms(1) that] by (simp add: none)
  have "resourceTsuruCertificateIssuerUnset provider d w =
      (Return [],
       d\<lparr>app_attr := a, cname_attr := c, issuer_attr := i, router_attr := [],
         certificate_attr := [], ready_attr := False\<rparr>,
       \<lparr>remote = r, calls = calls w @ [UnsetCertIssuerCall a c, GetCertificatesCall a]\<rparr>)"
    if u: "AppUnsetCertIssuer provider a c (remote w) = (None, r1)"
      and g: "AppGetCertificates provider a r1 = (Inr certificates, r)"
    using rd [of "\<lparr>remote = r1, calls = calls w @ [UnsetCertIssuerCall a c]\<rparr>"] g
    by (simp add: Unset_ok [OF assms(1) u])
  with rd [of w] show ?thesis
    by blast
qed

theorem read_without_matching_router_witness:
  "IDtoParts (ID (exampleData\<lparr>ID := ''a::c::gone''\<rparr>)) 3 = Inr [''a'', ''c'', ''gone''] \<and>
   \<not> (\<exists>n router e. (n, router) \<in> set (Routers exampleCertificates) \<and>
          Cnames router ''c'' = Some e \<and> Issuer e = ''gone'') \<and>
   AppGetCertificates exampleApi ''a'' (remote emptyWorld) = (Inr exampleCertificates, ()) \<and>
   AppUnsetCertIssuer exampleApi ''a'' ''c'' (remote emptyWorld) = (None, ()) \<and>
   resourceTsuruCertificateIssuerRead exampleApi (exampleData\<lparr>ID := ''a::c::gone''\<rparr>) emptyWorld =
     (Return [],
      exampleData\<lparr>ID := ''a::c::gone'', issuer_attr := ''gone'', router_attr := [],
        certificate_attr := [], ready_attr := False\<rparr>,
      \<lparr>remote = (), calls = [GetCertificatesCall ''a'']\<rparr>) \<and>
   resourceTsuruCertificateIssuerUnset exampleApi (exampleData\<lparr>ID := ''a::c::gone''\<rparr>) emptyWorld =
     (Return [],
      exampleData\<lparr>ID := ''a::c::gone'', issuer_attr := ''gone'', router_attr := [],
        certificate_attr := [], ready_attr := False\<rparr>,
      \<lparr>remote = (), calls = [UnsetCertIssuerCall ''a'' ''c'', GetCertificatesCall ''a'']\<rparr>)"
proof -
  let ?d = "exampleData\<lparr>ID := ''a::c::gone''\<rparr>"
  have p: "IDtoParts (ID ?d) 3 = Inr [''a'', ''c'', ''gone'']"
    by (simp add: IDtoParts_def idSeparator_def)
  have n: "\<not> (\<exists>n router e. (n, router) \<in> set (Routers exampleCertificates) \<and>
          Cnames router ''c'' = Some e \<and> Issuer e = ''gone'')"
    by (auto simp: exampleCertificates_def exampleRouters_def split: if_splits)
  have u: "AppUnsetCertIssuer exampleApi ''a'' ''c'' (remote emptyWorld) = (None, ())"
    by (simp add: exampleApi_def stubApi_def)
  have g: "AppGetCertificates exampleApi ''a'' () = (Inr exampleCertificates, ())"
    by (simp add: exampleApi_def stubApi_def)
  note t = read_without_matching_router [OF p n, of exampleApi emptyWorld "()" "()"]
  have t1: "resourceTsuruCertificateIssuerRead exampleApi ?d emptyWorld =
     (Return [],
      exampleData\<lparr>ID := ''a::c::gone'', issuer_attr := ''gone'', router_attr := [],
        certificate_attr := [], ready_attr := False\<rparr>,
      \<lparr>remote = (), calls = [GetCertificatesCall ''a'']\<rparr>)"
    using conjunct1 [OF t] exampleApi_get by (simp add: exampleData_def emptyWorld_def)
  have t2: "resourceTsuruCertificateIssuerUnset exampleApi ?d emptyWorld =
     (Return [],
      exampleData\<lparr>ID := ''a::c::gone'', issuer_attr := ''gone'', router_attr := [],
        certificate_attr := [], ready_attr := False\<rparr>,
      \<lparr>remote = (), calls = [UnsetCertIssuerCall ''a'' ''c'', GetCertificatesCall ''a'']\<rparr>)"
    using conjunct2 [OF t] u g by (simp add: exampleData_def emptyWorld_def)
  from p n exampleApi_get u t1 t2 show ?thesis
    by (intro conjI)
qed

text \<open>
  C9. The remote calls of an unset depend on the application and the CNAME of the
  identifier only: for two identifiers that parse to the same application and CNAME and
  to any issuers, the unset handler starts with the same unassign call and leaves the same
  remote state and the same list of remote calls.
\<close>

theorem unset_calls_independent_of_issuer:
  assumes "IDtoParts (ID d1) 3 = Inr (a # c # i1 # rest1)"
    and "IDtoParts (ID d2) 3 = Inr (a # c # i2 # rest2)"
  shows "snd (snd (resourceTsuruCertificateIssuerUnset provider d1 w)) =
           snd (snd (resourceTsuruCertificateIssuerUnset provider d2 w)) \<and>
         (\<exists>later. calls (snd (snd (resourceTsuruCertificateIssuerUnset provider d1 w))) =
            calls w @ UnsetCertIssuerCall a c # later)"
proof -
  obtain res r where u: "AppUnsetCertIssuer provider a c (remote w) = (res, r)"
    by (cases "AppUnsetCertIssuer provider a c (remote w)")
  let ?w1 = "\<lparr>remote = r, calls = calls w @ [UnsetCertIssuerCall a c]\<rparr>"
  have world: "snd (snd (resourceTsuruCertificateIssuerRead provider d ?w1)) =
      \<lparr>remote = snd (AppGetCertificates provider a r),
       calls = calls w @ [UnsetCertIssuerCall a c, GetCertificatesCall a]\<rparr>"
    if "IDtoParts (ID d) 3 = Inr (a # c # i # rest)" for d i rest
  proof (cases "AppGetCertificates provider a r")
    case (Pair g r')
    then have g: "AppGetCertificates provider a (remote ?w1) = (g, r')"
      by simp
    show ?thesis
    proof (cases g)
      case (Inl err)
      from Read_get_error [OF that g [unfolded Inl]] Pair show ?thesis
        by simp
    next
      case (Inr certificates)
      from Read_ok [OF that g [unfolded Inr]] Pair show ?thesis
        by simp
    qed
  qed
  show ?thesis
  proof (cases res)
    case (Some err)
    from Unset_remote_error [OF assms(1) u [unfolded Some]]
      Unset_remote_error [OF assms(2) u [unfolded Some]]
    show ?thesis by simp
  next
    case None
    from Unset_ok [OF assms(1) u [unfolded None]] Unset_ok [OF assms(2) u [unfolded None]]
      world [OF assms(1)] world [OF assms(2)]
    show ?thesis by simp
  qed
qed

theorem unset_calls_independent_of_issuer_witness:
  "IDtoParts (ID exampleData) 3 = Inr [''a'', ''c'', ''le''] \<and>
   IDtoParts (ID (exampleData\<lparr>ID := ''a::c::gone''\<rparr>)) 3 = Inr [''a'', ''c'', ''gone''] \<and>
   snd (snd (resourceTsuruCertificateIssuerUnset exampleApi exampleData emptyWorld)) =
     snd (snd (resourceTsuruCertificateIssuerUnset exampleApi
       (exampleData\<lparr>ID := ''a::c::gone''\<rparr>) emptyWorld)) \<and>
   (\<exists>later. calls (snd (snd (resourceTsuruCertificateIssuerUnset exampleApi exampleData
       emptyWorld))) = calls emptyWorld @ UnsetCertIssuerCall ''a'' ''c'' # later)"
proof -
  have p2: "IDtoParts (ID (exampleData\<lparr>ID := ''a::c::gone''\<rparr>)) 3 = Inr [''a'', ''c'', ''gone'']"
    by (simp add: IDtoParts_def idSeparator_def)
  note t = unset_calls_independent_of_issuer [OF exampleData_parts p2, of exampleApi emptyWorld]
  from exampleData_parts p2 conjunct1 [OF t] conjunct2 [OF t] show ?thesis
    by (intro conjI)
qed

text \<open>
  C10. A read that fails writes no field of the resource data: when the identifier does
  not parse, and when the remote call for the listing fails, the resource data the read
  leaves is the one it was given; and a read that returns anything but empty diagnostics
  is one of these.
\<close>

theorem read_failure_writes_nothing:
  assumes "resourceTsuruCertificateIssuerRead provider d w = (out, d', w')"
  shows "(out \<noteq> Return [] \<longrightarrow> d' = d) \<and>
         (\<forall>err. IDtoParts (ID d) 3 = Inl err \<longrightarrow> out = Return [DiagError err] \<and> d' = d) \<and>
         (\<forall>a c i rest err r. IDtoParts (ID d) 3 = Inr (a # c # i # rest) \<and>
            AppGetCertificates provider a (remote w) = (Inl err, r) \<longrightarrow>
            out = Return [DiagError err] \<and> d' = d)"
proof (intro conjI allI impI)
  assume "out \<noteq> Return []"
  with assms show "d' = d"
    by (auto simp: resourceTsuruCertificateIssuerRead_def
        split: sum.splits option.splits prod.splits)
next
  fix err assume "IDtoParts (ID d) 3 = Inl err"
  from Read_parse_error [OF this, of provider w] assms
  show "out = Return [DiagError err]" and "d' = d" by simp_all
next
  fix a c i rest err r
  assume "IDtoParts (ID d) 3 = Inr (a # c # i # rest) \<and>
            AppGetCertificates provider a (remote w) = (Inl err, r)"
  then have "resourceTsuruCertificateIssuerRead provider d w =
     (Return [DiagError err], d, \<lparr>remote = r, calls = calls w @ [GetCertificatesCall a]\<rparr>)"
    by (intro Read_get_error) simp_all
  with assms show "out = Return [DiagError err]" and "d' = d" by simp_all
qed

theorem read_failure_writes_nothing_witness:
  "resourceTsuruCertificateIssuerRead exampleApi (exampleData\<lparr>ID := ''a::c''\<rparr>) emptyWorld =
     (Return [DiagError idParseError], exampleData\<lparr>ID := ''a::c''\<rparr>, emptyWorld) \<and>
   IDtoParts (ID (exampleData\<lparr>ID := ''a::c''\<rparr>)) 3 = Inl idParseError \<and>
   Return [DiagError idParseError] \<noteq> Return [] \<and>
   resourceTsuruCertificateIssuerRead (stubApi None None (Inl ''boom'')) exampleData emptyWorld =
     (Return [DiagError ''boom''], exampleData,
      \<lparr>remote = (), calls = [GetCertificatesCall ''a'']\<rparr>) \<and>
   IDtoParts (ID exampleData) 3 = Inr [''a'', ''c'', ''le''] \<and>
   AppGetCertificates (stubApi None None (Inl ''boom'')) ''a'' (remote emptyWorld) =
     (Inl ''boom'', ())"
proof -
  let ?bad = "exampleData\<lparr>ID := ''a::c''\<rparr>"
  let ?down = "stubApi None None (Inl ''boom'')"
  let ?run1 = "resourceTsuruCertificateIssuerRead exampleApi ?bad emptyWorld"
  let ?run2 = "resourceTsuruCertificateIssuerRead ?down exampleData emptyWorld"
  have p1: "IDtoParts (ID ?bad) 3 = Inl idParseError"
    by (simp add: IDtoParts_def idSeparator_def)
  have g2: "AppGetCertificates ?down ''a'' (remote emptyWorld) = (Inl ''boom'', ())"
    by (simp add: stubApi_def)
  have e1: "?run1 = (fst ?run1, fst (snd ?run1), snd (snd ?run1))" by simp
  have e2: "?run2 = (fst ?run2, fst (snd ?run2), snd (snd ?run2))" by simp
  have w1: "snd (snd ?run1) = emptyWorld"
    by (simp add: Read_parse_error [OF p1])
  have w2: "snd (snd ?run2) = \<lparr>remote = (), calls = [GetCertificatesCall ''a'']\<rparr>"
    using Read_get_error [OF exampleData_parts g2] by (simp add: emptyWorld_def)
  from read_failure_writes_nothing [OF e1] p1
  have r1: "fst ?run1 = Return [DiagError idParseError] \<and> fst (snd ?run1) = ?bad"
    by blast
  from read_failure_writes_nothing [OF e2] exampleData_parts g2
  have r2: "fst ?run2 = Return [DiagError ''boom''] \<and> fst (snd ?run2) = exampleData"
    by blast
  have t1: "?run1 = (Return [DiagError idParseError], ?bad, emptyWorld)"
    using r1 w1 by (simp add: prod_eq_iff)
  have t2: "?run2 = (Return [DiagError ''boom''], exampleData,
      \<lparr>remote = (), calls = [GetCertificatesCall ''a'']\<rparr>)"
    using r2 w2 by (simp add: prod_eq_iff)
  have ne: "Return [DiagError idParseError] \<noteq> Return []" by simp
  from t1 p1 ne t2 exampleData_parts g2 show ?thesis
    by (intro conjI)
qed

end
